theory Spec2Isabelle
  imports Main "HOL-Library.AList"
begin

section \<open>The simulator driver of detox\<close>

text \<open>
  A shallow embedding of \<^verbatim>\<open>src/detox/src/devices/drivers/SimulatorDriver.js\<close>.
  The class \<^verbatim>\<open>SimulatorDriver\<close> sequences calls to its collaborators
  (\<^verbatim>\<open>AppleSimUtils\<close>, \<^verbatim>\<open>DeviceRegistry\<close>, the event emitter, the logger and
  the base class \<^verbatim>\<open>IosDriver\<close>). None of the collaborators is part of the source
  file, so each of them is a parameter of the model: its answers are arbitrary, and what
  the driver does with them is translated line by line. Every \<^verbatim>\<open>await\<close> is a
  sequencing point: a rejected promise leaves the method at once.
\<close>

subsection \<open>Values\<close>

type_synonym deviceId = string
type_synonym bundleId = string
type_synonym pid = int

text \<open>
  A JavaScript object is the list of its own enumerable properties, in the order in which
  JavaScript enumerates them; the keys of an object are pairwise distinct.
\<close>

datatype jsval =
    JString string
  | JNumber int
  | JBool bool
  | JObject "(string \<times> jsval) list"

type_synonym jsobject = "(string \<times> jsval) list"
type_synonym launchArgs = jsobject
type_synonym properties = jsobject

text \<open>The value a rejected promise carries.\<close>

datatype js_error = Thrown string

subsection \<open>Observable effects\<close>

text \<open>
  The four lifecycle events, each with the fields of the object literal the driver emits,
  in the order the literal lists them.
\<close>

datatype event =
    BootDevice bool deviceId
  | BeforeLaunchApp bundleId deviceId launchArgs
  | LaunchApp bundleId deviceId launchArgs pid
  | ShutdownDevice deviceId

text \<open>The methods of \<^verbatim>\<open>this._applesimutils\<close> that the embedded methods call.\<close>

datatype simutils_call =
    GetDevicesWithProperties properties
  | Boot deviceId
  | Launch deviceId bundleId launchArgs
  | Terminate deviceId bundleId
  | Shutdown deviceId
  | ResetContentAndSettings deviceId

datatype registry_call =
    AcquireDevice string
  | FreeDevice deviceId

text \<open>
  Everything the driver does to the outside, in the order it does it: the trace of a
  run is the list of these actions.
\<close>

datatype action =
    SimUtils simutils_call
  | Emit event
  | Registry registry_call
  | LogError string string
  | SuperCleanup deviceId bundleId

subsection \<open>The collaborators\<close>

text \<open>
  The collaborators whose code is not in the source file, as functions on an opaque
  world \<open>'w\<close>. A call returns \<open>Inr\<close> of its value or \<open>Inl\<close> of the error it
  throws, and the world after the call. \<^verbatim>\<open>deviceRegistry.acquireDevice\<close> also reads
  and writes the registry's set of owned device ids; it answers a device id or nothing
  (\<^verbatim>\<open>undefined\<close>).
\<close>

record 'w collaborators =
  asu_getDevicesWithProperties :: "properties \<Rightarrow> 'w \<Rightarrow> (js_error + jsobject list) \<times> 'w"
  asu_boot :: "deviceId \<Rightarrow> 'w \<Rightarrow> (js_error + bool) \<times> 'w"
  asu_launch :: "deviceId \<Rightarrow> bundleId \<Rightarrow> launchArgs \<Rightarrow> 'w \<Rightarrow> (js_error + pid) \<times> 'w"
  asu_terminate :: "deviceId \<Rightarrow> bundleId \<Rightarrow> 'w \<Rightarrow> (js_error + unit) \<times> 'w"
  asu_shutdown :: "deviceId \<Rightarrow> 'w \<Rightarrow> (js_error + unit) \<times> 'w"
  asu_resetContentAndSettings :: "deviceId \<Rightarrow> 'w \<Rightarrow> (js_error + unit) \<times> 'w"
  registry_acquireDevice ::
    "string \<Rightarrow> deviceId set \<Rightarrow> 'w \<Rightarrow> (js_error + deviceId option) \<times> deviceId set \<times> 'w"
  super_cleanup :: "deviceId \<Rightarrow> bundleId \<Rightarrow> 'w \<Rightarrow> (js_error + unit) \<times> 'w"

text \<open>
  The state a method runs in: the trace so far, the registry's bookkeeping of owned
  device ids, and the world of the collaborators. The driver itself has no field that
  records the lifecycle state of a device.
\<close>

record 'w driver_state =
  trace :: "action list"
  owned :: "deviceId set"
  world :: 'w

type_synonym ('w, 'a) async = "'w driver_state \<Rightarrow> (js_error + 'a) \<times> 'w driver_state"

subsection \<open>Sequencing\<close>

text \<open>
  \<^verbatim>\<open>const x = await m; k(x)\<close>: when \<open>m\<close> throws, the rest is not run and the
  error is the method's outcome.
\<close>

definition await :: "('w, 'a) async \<Rightarrow> ('a \<Rightarrow> ('w, 'b) async) \<Rightarrow> ('w, 'b) async" where
  "await m k s = (case m s of (Inl e, s1) \<Rightarrow> (Inl e, s1) | (Inr x, s1) \<Rightarrow> k x s1)"

text \<open>\<^verbatim>\<open>return x\<close> of an async method.\<close>

definition resolve :: "'a \<Rightarrow> ('w, 'a) async" where
  "resolve x s = (Inr x, s)"

text \<open>
  A call \<^verbatim>\<open>this._applesimutils.m(...)\<close>: the call is recorded, the collaborator
  answers on the current world.
\<close>

definition applesimutils :: "simutils_call \<Rightarrow> ('w \<Rightarrow> (js_error + 'a) \<times> 'w) \<Rightarrow> ('w, 'a) async" where
  "applesimutils call f s =
     (case f (world s) of
        (r, w1) \<Rightarrow> (r, s\<lparr>trace := trace s @ [SimUtils call], world := w1\<rparr>))"

text \<open>
  Modelled from the spec: \<^verbatim>\<open>this.emitter.emit\<close>, the emitter the driver inherits, is not
  in the source file. The spec takes event emission as a reliable in-process publish
  mechanism: \<open>emit\<close> publishes the event and returns.
\<close>

definition emit :: "event \<Rightarrow> ('w, unit) async" where
  "emit ev s = (Inr (), s\<lparr>trace := trace s @ [Emit ev]\<rparr>)"

text \<open>\<^verbatim>\<open>log.error({ event }, message)\<close>: the logger writes a line and returns.\<close>

definition log_error :: "string \<Rightarrow> string \<Rightarrow> ('w, unit) async" where
  "log_error ev msg s = (Inr (), s\<lparr>trace := trace s @ [LogError ev msg]\<rparr>)"

text \<open>\<^verbatim>\<open>this.deviceRegistry.acquireDevice(name)\<close>.\<close>

definition acquireDevice :: "'w collaborators \<Rightarrow> string \<Rightarrow> ('w, deviceId option) async" where
  "acquireDevice c name s =
     (case registry_acquireDevice c name (owned s) (world s) of
        (r, o1, w1) \<Rightarrow>
          (r, s\<lparr>trace := trace s @ [Registry (AcquireDevice name)], owned := o1, world := w1\<rparr>))"

text \<open>
  Modelled from the spec: \<^verbatim>\<open>DeviceRegistry.freeDevice\<close> is not in the source file. The
  spec (4.1): it clears the ownership bookkeeping for the device id, making it eligible
  again, and is a no-op, not an error, if the id was never tracked as owned.
\<close>

definition freeDevice :: "deviceId \<Rightarrow> ('w, unit) async" where
  "freeDevice deviceId s =
     (Inr (), s\<lparr>trace := trace s @ [Registry (FreeDevice deviceId)],
                 owned := owned s - {deviceId}\<rparr>)"

text \<open>\<^verbatim>\<open>super.cleanup(deviceId, bundleId)\<close>, the teardown of the base class.\<close>

definition superCleanup :: "'w collaborators \<Rightarrow> deviceId \<Rightarrow> bundleId \<Rightarrow> ('w, unit) async" where
  "superCleanup c deviceId bundleId s =
     (case super_cleanup c deviceId bundleId (world s) of
        (r, w1) \<Rightarrow> (r, s\<lparr>trace := trace s @ [SuperCleanup deviceId bundleId], world := w1\<rparr>))"

subsection \<open>Normalising a device descriptor (lines 44-50)\<close>

text \<open>
  \<^verbatim>\<open>_.mapKeys(object, iteratee)\<close> of lodash: it starts from an empty result and, for
  every own property of \<open>object\<close> in order, assigns the value under the key
  \<open>iteratee(value, key)\<close>. Assigning to a key the result already has overwrites its
  value and keeps its position.
\<close>

definition mapKeys :: "(string \<times> 'v) list \<Rightarrow> ('v \<Rightarrow> string \<Rightarrow> string) \<Rightarrow> (string \<times> 'v) list" where
  "mapKeys obj iteratee =
     fold (\<lambda>(key, val) result. AList.update (iteratee val key) val result) obj []"

definition renameUDID :: "'v \<Rightarrow> string \<Rightarrow> string" where
  "renameUDID value key = (if key = ''udid'' then ''id'' else key)"

definition remapSimUtilsObject :: "(string \<times> 'v) list \<Rightarrow> (string \<times> 'v) list" where
  "remapSimUtilsObject device = mapKeys device renameUDID"

subsection \<open>The capabilities handed to the registry (lines 23-42)\<close>

text \<open>
  \<^verbatim>\<open>_getDevicesWithProperties\<close> (lines 34-37); an Isabelle name cannot start with an
  underscore.
\<close>

definition getDevicesWithProperties :: "'w collaborators \<Rightarrow> properties \<Rightarrow> ('w, jsobject list) async" where
  "getDevicesWithProperties c props =
     await (applesimutils (GetDevicesWithProperties props) (asu_getDevicesWithProperties c props))
       (\<lambda>devices. resolve (map remapSimUtilsObject devices))"

text \<open>
  \<^verbatim>\<open>_createDeviceWithProperties\<close> is declared twice in the class body, at lines 29-32
  and at lines 39-42. A class body keeps the last method of a name, so the method the
  constructor binds at line 24 as the registry's \<^verbatim>\<open>createDeviceWithProperties\<close> is the
  one of lines 39-42, embedded here.
\<close>

definition createDeviceWithProperties :: "'w collaborators \<Rightarrow> properties \<Rightarrow> ('w, jsobject list) async" where
  "createDeviceWithProperties c props =
     await (applesimutils (GetDevicesWithProperties props) (asu_getDevicesWithProperties c props))
       (\<lambda>devices. resolve (map remapSimUtilsObject devices))"

subsection \<open>Lifecycle methods\<close>

text \<open>\<^verbatim>\<open>boot\<close> (lines 103-106).\<close>

definition boot :: "'w collaborators \<Rightarrow> deviceId \<Rightarrow> ('w, unit) async" where
  "boot c deviceId =
     await (applesimutils (Boot deviceId) (asu_boot c deviceId))
       (\<lambda>coldBoot. emit (BootDevice coldBoot deviceId))"

text \<open>\<^verbatim>\<open>launchApp\<close> (lines 116-122).\<close>

definition launchApp :: "'w collaborators \<Rightarrow> deviceId \<Rightarrow> bundleId \<Rightarrow> launchArgs \<Rightarrow> ('w, pid) async" where
  "launchApp c deviceId bundleId launchArgs =
     await (emit (BeforeLaunchApp bundleId deviceId launchArgs))
       (\<lambda>_. await (applesimutils (Launch deviceId bundleId launchArgs)
                     (asu_launch c deviceId bundleId launchArgs))
         (\<lambda>pid. await (emit (LaunchApp bundleId deviceId launchArgs pid))
           (\<lambda>_. resolve pid)))"

text \<open>\<^verbatim>\<open>terminate\<close> (lines 124-126).\<close>

definition terminate :: "'w collaborators \<Rightarrow> deviceId \<Rightarrow> bundleId \<Rightarrow> ('w, unit) async" where
  "terminate c deviceId bundleId =
     applesimutils (Terminate deviceId bundleId) (asu_terminate c deviceId bundleId)"

text \<open>\<^verbatim>\<open>shutdown\<close> (lines 132-135).\<close>

definition shutdown :: "'w collaborators \<Rightarrow> deviceId \<Rightarrow> ('w, unit) async" where
  "shutdown c deviceId =
     await (applesimutils (Shutdown deviceId) (asu_shutdown c deviceId))
       (\<lambda>_. emit (ShutdownDevice deviceId))"

text \<open>\<^verbatim>\<open>resetContentAndSettings\<close> (lines 145-149).\<close>

definition resetContentAndSettings :: "'w collaborators \<Rightarrow> deviceId \<Rightarrow> ('w, unit) async" where
  "resetContentAndSettings c deviceId =
     await (shutdown c deviceId)
       (\<lambda>_. await (applesimutils (ResetContentAndSettings deviceId)
                     (asu_resetContentAndSettings c deviceId))
         (\<lambda>_. boot c deviceId))"

text \<open>\<^verbatim>\<open>cleanup\<close> (lines 73-76).\<close>

definition cleanup :: "'w collaborators \<Rightarrow> deviceId \<Rightarrow> bundleId \<Rightarrow> ('w, unit) async" where
  "cleanup c deviceId bundleId =
     await (freeDevice deviceId) (\<lambda>_. superCleanup c deviceId bundleId)"

text \<open>
  \<^verbatim>\<open>acquireFreeDevice\<close> (lines 78-88). The test \<^verbatim>\<open>if (deviceId)\<close> is JavaScript's
  truthiness: it holds for a non-empty string and fails for \<^verbatim>\<open>undefined\<close> (\<open>None\<close>)
  and for the empty string. Whatever the registry answered is what the method returns.
\<close>

definition acquireFreeDevice :: "'w collaborators \<Rightarrow> string \<Rightarrow> ('w, deviceId option) async" where
  "acquireFreeDevice c name =
     await (acquireDevice c name)
       (\<lambda>deviceId.
          await (case deviceId of
                   None \<Rightarrow>
                     log_error ''ACQUIRE_DEVICE_ERROR''
                       (''Unable to acquire free device: '' @ name)
                 | Some d \<Rightarrow>
                     if d \<noteq> [] then boot c d
                     else log_error ''ACQUIRE_DEVICE_ERROR''
                            (''Unable to acquire free device: '' @ name))
            (\<lambda>_. resolve deviceId))"

subsection \<open>Reading a trace\<close>


primrec simutils_calls :: "action list \<Rightarrow> simutils_call list" where
  "simutils_calls [] = []"
| "simutils_calls (a # tr) =
     (case a of SimUtils call \<Rightarrow> call # simutils_calls tr | _ \<Rightarrow> simutils_calls tr)"

subsection \<open>Scripted collaborators\<close>

text \<open>
  Collaborators that answer every call with a fixed outcome, to run the driver on
  concrete inputs. Their world counts the calls they have answered; a scripted registry
  marks the id it hands out as owned.
\<close>

record script =
  on_getDevices :: "js_error + jsobject list"
  on_boot :: "js_error + bool"
  on_launch :: "js_error + pid"
  on_terminate :: "js_error + unit"
  on_shutdown :: "js_error + unit"
  on_reset :: "js_error + unit"
  on_acquire :: "js_error + deviceId option"
  on_superCleanup :: "js_error + unit"

definition scripted :: "script \<Rightarrow> nat collaborators" where
  "scripted sc =
     \<lparr> asu_getDevicesWithProperties = (\<lambda>props w. (on_getDevices sc, Suc w)),
       asu_boot = (\<lambda>d w. (on_boot sc, Suc w)),
       asu_launch = (\<lambda>d b args w. (on_launch sc, Suc w)),
       asu_terminate = (\<lambda>d b w. (on_terminate sc, Suc w)),
       asu_shutdown = (\<lambda>d w. (on_shutdown sc, Suc w)),
       asu_resetContentAndSettings = (\<lambda>d w. (on_reset sc, Suc w)),
       registry_acquireDevice =
         (\<lambda>name own w.
            (on_acquire sc,
             (case on_acquire sc of Inr (Some d) \<Rightarrow> insert d own | _ \<Rightarrow> own),
             Suc w)),
       super_cleanup = (\<lambda>d b w. (on_superCleanup sc, Suc w)) \<rparr>"

text \<open>A script on which every call succeeds.\<close>

definition all_ok :: script where
  "all_ok =
     \<lparr> on_getDevices = Inr [],
       on_boot = Inr True,
       on_launch = Inr 1234,
       on_terminate = Inr (),
       on_shutdown = Inr (),
       on_reset = Inr (),
       on_acquire = Inr (Some ''ABCD-1''),
       on_superCleanup = Inr () \<rparr>"

text \<open>The state of a driver that has done nothing yet.\<close>

definition fresh :: "nat driver_state" where
  "fresh = \<lparr> trace = [], owned = {}, world = 0 \<rparr>"

section \<open>Properties\<close>

subsection \<open>Auxiliary facts\<close>

lemmas plumbing = await_def resolve_def applesimutils_def emit_def log_error_def
  acquireDevice_def freeDevice_def superCleanup_def

lemmas scripts = scripted_def all_ok_def fresh_def


lemma simutils_calls_append: "simutils_calls (xs @ ys) = simutils_calls xs @ simutils_calls ys"
  by (induction xs) (simp_all split: action.split)

text \<open>What one run of \<open>boot\<close> and of \<open>shutdown\<close> does, by the answer of the backend.\<close>

lemma boot_run:
  assumes "asu_boot c deviceId (world s) = (r, w1)"
  shows "boot c deviceId s =
    (case r of
       Inl e \<Rightarrow> (Inl e, s\<lparr>trace := trace s @ [SimUtils (Boot deviceId)], world := w1\<rparr>)
     | Inr coldBoot \<Rightarrow>
         (Inr (), s\<lparr>trace := trace s @ [SimUtils (Boot deviceId),
                                         Emit (BootDevice coldBoot deviceId)],
                    world := w1\<rparr>))"
  using assms by (cases r) (simp_all add: boot_def plumbing)

lemma shutdown_run:
  assumes "asu_shutdown c deviceId (world s) = (r, w1)"
  shows "shutdown c deviceId s =
    (case r of
       Inl e \<Rightarrow> (Inl e, s\<lparr>trace := trace s @ [SimUtils (Shutdown deviceId)], world := w1\<rparr>)
     | Inr u \<Rightarrow>
         (Inr (), s\<lparr>trace := trace s @ [SimUtils (Shutdown deviceId),
                                         Emit (ShutdownDevice deviceId)],
                    world := w1\<rparr>))"
  using assms by (cases r) (simp_all add: shutdown_def plumbing)

subsection \<open>launchApp\<close>

text \<open>
  C1. Every call \<open>launchApp deviceId bundleId launchArgs\<close> first emits
  \<open>beforeLaunchApp\<close> with the bundle id, the device id and the launch arguments, then
  invokes the launch primitive of the backend. When the backend returns a process id,
  the event \<open>launchApp\<close> with the same bundle id, device id and launch arguments and that
  process id is emitted next, and the call returns the process id. When the backend
  throws, nothing more is emitted and the error is the outcome of the call.
\<close>

theorem launchApp_event_order:
  assumes "asu_launch c deviceId bundleId launchArgs (world s) = (r, w1)"
  shows "launchApp c deviceId bundleId launchArgs s =
    (r, s\<lparr>trace := trace s @
              [Emit (BeforeLaunchApp bundleId deviceId launchArgs),
               SimUtils (Launch deviceId bundleId launchArgs)] @
              (case r of
                 Inl e \<Rightarrow> []
               | Inr p \<Rightarrow> [Emit (LaunchApp bundleId deviceId launchArgs p)]),
           world := w1\<rparr>)"
proof (cases r)
  case (Inl e)
  with assms show ?thesis
    by (simp add: launchApp_def await_def emit_def applesimutils_def)
next
  case (Inr p)
  with assms show ?thesis
    by (simp add: launchApp_def await_def emit_def applesimutils_def resolve_def)
qed

theorem launchApp_event_order_witness:
  "asu_launch (scripted all_ok) ''ABCD-1'' ''com.example.app'' [] (world fresh) = (Inr 1234, 1)
   \<and> launchApp (scripted all_ok) ''ABCD-1'' ''com.example.app'' [] fresh =
       (Inr 1234,
        \<lparr>trace = [Emit (BeforeLaunchApp ''com.example.app'' ''ABCD-1'' []),
                  SimUtils (Launch ''ABCD-1'' ''com.example.app'' []),
                  Emit (LaunchApp ''com.example.app'' ''ABCD-1'' [] 1234)],
         owned = {}, world = 1\<rparr>)"
proof -
  have h: "asu_launch (scripted all_ok) ''ABCD-1'' ''com.example.app'' [] (world fresh)
             = (Inr 1234, 1)"
    by (simp add: scripts)
  show ?thesis
    using h launchApp_event_order [OF h] by (simp add: fresh_def)
qed

subsection \<open>boot and shutdown\<close>

text \<open>
  C2. Every call \<open>boot deviceId\<close> invokes the boot primitive of the backend first. When
  that call succeeds with the value \<open>coldBoot\<close>, the event \<open>bootDevice\<close> with
  \<open>coldBoot\<close> and the device id is emitted after it. When it throws, the call ends with
  that error and the trace has grown by the backend call alone: no event is emitted.
\<close>

theorem boot_event_only_after_success:
  assumes "asu_boot c deviceId (world s) = (r, w1)"
  shows "boot c deviceId s =
    (case r of
       Inl e \<Rightarrow> (Inl e, s\<lparr>trace := trace s @ [SimUtils (Boot deviceId)], world := w1\<rparr>)
     | Inr coldBoot \<Rightarrow>
         (Inr (), s\<lparr>trace := trace s @ [SimUtils (Boot deviceId),
                                         Emit (BootDevice coldBoot deviceId)],
                    world := w1\<rparr>))"
  using assms by (rule boot_run)

theorem boot_event_only_after_success_witness:
  "boot (scripted all_ok) ''ABCD-1'' fresh =
     (Inr (), \<lparr>trace = [SimUtils (Boot ''ABCD-1''), Emit (BootDevice True ''ABCD-1'')],
               owned = {}, world = 1\<rparr>)
   \<and> boot (scripted (all_ok\<lparr>on_boot := Inl (Thrown ''boot failed'')\<rparr>)) ''ABCD-1'' fresh =
     (Inl (Thrown ''boot failed''),
      \<lparr>trace = [SimUtils (Boot ''ABCD-1'')], owned = {}, world = 1\<rparr>)"
proof -
  have ok: "asu_boot (scripted all_ok) ''ABCD-1'' (world fresh) = (Inr True, 1)"
    by (simp add: scripts)
  have failing:
    "asu_boot (scripted (all_ok\<lparr>on_boot := Inl (Thrown ''boot failed'')\<rparr>)) ''ABCD-1''
       (world fresh) = (Inl (Thrown ''boot failed''), 1)"
    by (simp add: scripts)
  show ?thesis
    using boot_event_only_after_success [OF ok] boot_event_only_after_success [OF failing]
    by (simp add: fresh_def)
qed

text \<open>
  C3. Every call \<open>shutdown deviceId\<close> invokes the shutdown primitive of the backend
  first. When that call returns, the event \<open>shutdownDevice\<close> with the device id is
  emitted after it. When it throws, the call ends with that error and no event is
  emitted.
\<close>

theorem shutdown_event_only_after_success:
  assumes "asu_shutdown c deviceId (world s) = (r, w1)"
  shows "shutdown c deviceId s =
    (case r of
       Inl e \<Rightarrow> (Inl e, s\<lparr>trace := trace s @ [SimUtils (Shutdown deviceId)], world := w1\<rparr>)
     | Inr u \<Rightarrow>
         (Inr (), s\<lparr>trace := trace s @ [SimUtils (Shutdown deviceId),
                                         Emit (ShutdownDevice deviceId)],
                    world := w1\<rparr>))"
  using assms by (rule shutdown_run)

theorem shutdown_event_only_after_success_witness:
  "shutdown (scripted all_ok) ''ABCD-1'' fresh =
     (Inr (), \<lparr>trace = [SimUtils (Shutdown ''ABCD-1''), Emit (ShutdownDevice ''ABCD-1'')],
               owned = {}, world = 1\<rparr>)
   \<and> shutdown (scripted (all_ok\<lparr>on_shutdown := Inl (Thrown ''shutdown failed'')\<rparr>))
       ''ABCD-1'' fresh =
     (Inl (Thrown ''shutdown failed''),
      \<lparr>trace = [SimUtils (Shutdown ''ABCD-1'')], owned = {}, world = 1\<rparr>)"
proof -
  have ok: "asu_shutdown (scripted all_ok) ''ABCD-1'' (world fresh) = (Inr (), 1)"
    by (simp add: scripts)
  have failing:
    "asu_shutdown (scripted (all_ok\<lparr>on_shutdown := Inl (Thrown ''shutdown failed'')\<rparr>))
       ''ABCD-1'' (world fresh) = (Inl (Thrown ''shutdown failed''), 1)"
    by (simp add: scripts)
  show ?thesis
    using shutdown_event_only_after_success [OF ok]
      shutdown_event_only_after_success [OF failing]
    by (simp add: fresh_def)
qed

subsection \<open>terminate\<close>

text \<open>
  C7, as the code has it. \<open>terminate deviceId bundleId\<close> tests no lifecycle state and
  records none: in every state it invokes the terminate primitive of the backend once,
  emits no event, and ends as the backend call ends, so an error of the backend is the
  outcome of the call.
\<close>

theorem terminate_delegates_to_backend:
  assumes "asu_terminate c deviceId bundleId (world s) = (r, w1)"
  shows "terminate c deviceId bundleId s =
    (r, s\<lparr>trace := trace s @ [SimUtils (Terminate deviceId bundleId)], world := w1\<rparr>)"
  using assms by (simp add: terminate_def applesimutils_def)

theorem terminate_delegates_to_backend_witness:
  "terminate (scripted (all_ok\<lparr>on_terminate := Inl (Thrown ''not running'')\<rparr>))
     ''ABCD-1'' ''com.example.app'' fresh =
     (Inl (Thrown ''not running''),
      \<lparr>trace = [SimUtils (Terminate ''ABCD-1'' ''com.example.app'')], owned = {}, world = 1\<rparr>)"
proof -
  have h:
    "asu_terminate (scripted (all_ok\<lparr>on_terminate := Inl (Thrown ''not running'')\<rparr>))
       ''ABCD-1'' ''com.example.app'' (world fresh) = (Inl (Thrown ''not running''), 1)"
    by (simp add: scripts)
  show ?thesis
    using terminate_delegates_to_backend [OF h] by (simp add: fresh_def)
qed

text \<open>
  C7, as the claim states it, fails. In the state \<open>fresh\<close> nothing has been acquired,
  booted or launched, so no device is running. There \<open>terminate\<close> is not rejected: the
  call is handed to the backend, and with a backend that accepts it the driver reports
  success.
\<close>

theorem terminate_without_launch_counterexample:
  "terminate (scripted all_ok) ''ABCD-1'' ''com.example.app'' fresh =
     (Inr (),
      \<lparr>trace = [SimUtils (Terminate ''ABCD-1'' ''com.example.app'')], owned = {}, world = 1\<rparr>)"
  by (simp add: terminate_def applesimutils_def scripts)

subsection \<open>cleanup\<close>

text \<open>
  C6. Every call \<open>cleanup deviceId bundleId\<close>, in whatever state earlier operations
  have left the driver, invokes \<open>freeDevice deviceId\<close> of the registry first and the
  teardown of the base class after it. The step that frees the device does not throw:
  the teardown is always reached, and whether the teardown returns or throws, the device
  id is no longer owned afterwards.
\<close>

theorem cleanup_frees_device_first:
  assumes "super_cleanup c deviceId bundleId (world s) = (r, w1)"
  shows "cleanup c deviceId bundleId s =
           (r, s\<lparr>trace := trace s @ [Registry (FreeDevice deviceId),
                                      SuperCleanup deviceId bundleId],
                  owned := owned s - {deviceId}, world := w1\<rparr>)
       \<and> deviceId \<notin> owned (snd (cleanup c deviceId bundleId s))"
proof -
  have run: "cleanup c deviceId bundleId s =
      (r, s\<lparr>trace := trace s @ [Registry (FreeDevice deviceId), SuperCleanup deviceId bundleId],
             owned := owned s - {deviceId}, world := w1\<rparr>)"
    using assms by (simp add: cleanup_def await_def freeDevice_def superCleanup_def)
  then show ?thesis
    by simp
qed

text \<open>
  The instance: a device was acquired and its boot failed; the teardown of the base class
  throws as well. The device is freed all the same.
\<close>

theorem cleanup_frees_device_first_witness:
  "cleanup (scripted (all_ok\<lparr>on_superCleanup := Inl (Thrown ''teardown failed'')\<rparr>))
     ''ABCD-1'' ''com.example.app''
     \<lparr>trace = [Registry (AcquireDevice ''iPhone-Test''), SimUtils (Boot ''ABCD-1'')],
      owned = {''ABCD-1''}, world = 2\<rparr> =
     (Inl (Thrown ''teardown failed''),
      \<lparr>trace = [Registry (AcquireDevice ''iPhone-Test''), SimUtils (Boot ''ABCD-1''),
                Registry (FreeDevice ''ABCD-1''), SuperCleanup ''ABCD-1'' ''com.example.app''],
       owned = {}, world = 3\<rparr>)"
proof -
  let ?wedged = "\<lparr>trace = [Registry (AcquireDevice ''iPhone-Test''), SimUtils (Boot ''ABCD-1'')],
                  owned = {''ABCD-1''}, world = 2::nat\<rparr>"
  have h:
    "super_cleanup (scripted (all_ok\<lparr>on_superCleanup := Inl (Thrown ''teardown failed'')\<rparr>))
       ''ABCD-1'' ''com.example.app'' (world ?wedged) = (Inl (Thrown ''teardown failed''), 3)"
    by (simp add: scripts)
  show ?thesis
    using cleanup_frees_device_first [OF h] by simp
qed

subsection \<open>acquireFreeDevice\<close>

text \<open>
  C4. Let the registry's \<open>acquireDevice\<close> return. If it returns nothing,
  \<open>acquireFreeDevice\<close> logs the error \<open>ACQUIRE_DEVICE_ERROR\<close> and returns nothing; it
  does not throw. If it returns a device id (a non-empty string, which is what the test
  at line 81 accepts), the driver boots that device before it returns: when the boot
  succeeds, the id is returned after the event \<open>bootDevice\<close> was emitted, and when the
  boot throws, the error is the outcome and no id is returned. So whenever a device id is
  returned, the backend has booted that device and \<open>bootDevice\<close> has been emitted.
\<close>

theorem acquireFreeDevice_boots_before_returning:
  assumes acq: "registry_acquireDevice c name (owned s) (world s) = (Inr a, o1, w1)"
  shows "(a = None \<longrightarrow>
            acquireFreeDevice c name s =
              (Inr None,
               s\<lparr>trace := trace s @ [Registry (AcquireDevice name),
                                      LogError ''ACQUIRE_DEVICE_ERROR''
                                        (''Unable to acquire free device: '' @ name)],
                 owned := o1, world := w1\<rparr>))
       \<and> (\<forall>d. a = Some d \<and> d \<noteq> [] \<longrightarrow>
            acquireFreeDevice c name s =
              (case asu_boot c d w1 of
                 (Inl e, w2) \<Rightarrow>
                   (Inl e,
                    s\<lparr>trace := trace s @ [Registry (AcquireDevice name), SimUtils (Boot d)],
                      owned := o1, world := w2\<rparr>)
               | (Inr coldBoot, w2) \<Rightarrow>
                   (Inr (Some d),
                    s\<lparr>trace := trace s @ [Registry (AcquireDevice name), SimUtils (Boot d),
                                           Emit (BootDevice coldBoot d)],
                      owned := o1, world := w2\<rparr>)))
       \<and> (\<forall>d s'. d \<noteq> [] \<and> acquireFreeDevice c name s = (Inr (Some d), s') \<longrightarrow>
            (\<exists>coldBoot w2.
               asu_boot c d w1 = (Inr coldBoot, w2) \<and>
               trace s' = trace s @ [Registry (AcquireDevice name), SimUtils (Boot d),
                                     Emit (BootDevice coldBoot d)]))"
proof -
  let ?s1 = "s\<lparr>trace := trace s @ [Registry (AcquireDevice name)], owned := o1, world := w1\<rparr>"
  let ?logged = "s\<lparr>trace := trace s @ [Registry (AcquireDevice name),
                                        LogError ''ACQUIRE_DEVICE_ERROR''
                                          (''Unable to acquire free device: '' @ name)],
                   owned := o1, world := w1\<rparr>"
  have acquired: "acquireDevice c name s = (Inr a, ?s1)"
    using acq by (simp add: acquireDevice_def)
  have none: "acquireFreeDevice c name s = (Inr None, ?logged)" if "a = None"
    using acquired that
    by (simp add: acquireFreeDevice_def await_def log_error_def resolve_def)
  have empty: "acquireFreeDevice c name s = (Inr (Some []), ?logged)" if "a = Some []"
    using acquired that
    by (simp add: acquireFreeDevice_def await_def log_error_def resolve_def)
  have some: "acquireFreeDevice c name s =
      (case asu_boot c d w1 of
         (Inl e, w2) \<Rightarrow>
           (Inl e,
            s\<lparr>trace := trace s @ [Registry (AcquireDevice name), SimUtils (Boot d)],
              owned := o1, world := w2\<rparr>)
       | (Inr coldBoot, w2) \<Rightarrow>
           (Inr (Some d),
            s\<lparr>trace := trace s @ [Registry (AcquireDevice name), SimUtils (Boot d),
                                   Emit (BootDevice coldBoot d)],
              owned := o1, world := w2\<rparr>))"
    if a: "a = Some d" "d \<noteq> []" for d
  proof -
    obtain rb w2 where bt: "asu_boot c d w1 = (rb, w2)"
      by (cases "asu_boot c d w1")
    then have "asu_boot c d (world ?s1) = (rb, w2)"
      by simp
    note run = boot_run [OF this]
    from acquired a run bt show ?thesis
      by (cases rb) (simp_all add: acquireFreeDevice_def await_def resolve_def)
  qed
  have only_booted:
    "\<exists>coldBoot w2.
       asu_boot c d w1 = (Inr coldBoot, w2) \<and>
       trace s' = trace s @ [Registry (AcquireDevice name), SimUtils (Boot d),
                             Emit (BootDevice coldBoot d)]"
    if d: "d \<noteq> []" and ret: "acquireFreeDevice c name s = (Inr (Some d), s')" for d s'
  proof (cases a)
    case None
    with none ret show ?thesis by simp
  next
    case (Some d')
    show ?thesis
    proof (cases "d' = []")
      case True
      with Some empty ret d show ?thesis by simp
    next
      case False
      obtain rb w2 where bt: "asu_boot c d' w1 = (rb, w2)"
        by (cases "asu_boot c d' w1")
      from some [OF Some False] ret bt show ?thesis
        by (cases rb) auto
    qed
  qed
  from none some only_booted show ?thesis
    by blast
qed

theorem acquireFreeDevice_boots_before_returning_witness:
  "acquireFreeDevice (scripted all_ok) ''iPhone-Test'' fresh =
     (Inr (Some ''ABCD-1''),
      \<lparr>trace = [Registry (AcquireDevice ''iPhone-Test''), SimUtils (Boot ''ABCD-1''),
                Emit (BootDevice True ''ABCD-1'')],
       owned = {''ABCD-1''}, world = 2\<rparr>)
   \<and> acquireFreeDevice (scripted (all_ok\<lparr>on_acquire := Inr None\<rparr>)) ''iPhone-Test'' fresh =
     (Inr None,
      \<lparr>trace = [Registry (AcquireDevice ''iPhone-Test''),
                LogError ''ACQUIRE_DEVICE_ERROR'' ''Unable to acquire free device: iPhone-Test''],
       owned = {}, world = 1\<rparr>)"
proof -
  have found:
    "registry_acquireDevice (scripted all_ok) ''iPhone-Test'' (owned fresh) (world fresh) =
       (Inr (Some ''ABCD-1''), {''ABCD-1''}, 1)"
    by (simp add: scripts)
  have no_device:
    "registry_acquireDevice (scripted (all_ok\<lparr>on_acquire := Inr None\<rparr>)) ''iPhone-Test''
       (owned fresh) (world fresh) = (Inr None, {}, 1)"
    by (simp add: scripts)
  have booting: "asu_boot (scripted all_ok) ''ABCD-1'' 1 = (Inr True, 2)"
    by (simp add: scripts)
  show ?thesis
    using acquireFreeDevice_boots_before_returning [OF found]
      acquireFreeDevice_boots_before_returning [OF no_device] booting
    by (simp add: fresh_def)
qed

subsection \<open>resetContentAndSettings\<close>

text \<open>
  One run of \<open>resetContentAndSettings\<close>, by the answers of the backend to the
  shutdown, to the wipe and to the boot.
\<close>

lemma resetContentAndSettings_run:
  assumes sh: "asu_shutdown c d (world s) = (r1, w1)"
    and wipe: "asu_resetContentAndSettings c d w1 = (r2, w2)"
    and bt: "asu_boot c d w2 = (r3, w3)"
  shows "resetContentAndSettings c d s =
    (case r1 of
       Inl e \<Rightarrow> (Inl e, s\<lparr>trace := trace s @ [SimUtils (Shutdown d)], world := w1\<rparr>)
     | Inr u \<Rightarrow>
        (case r2 of
           Inl e \<Rightarrow>
             (Inl e, s\<lparr>trace := trace s @ [SimUtils (Shutdown d), Emit (ShutdownDevice d),
                                            SimUtils (ResetContentAndSettings d)],
                       world := w2\<rparr>)
         | Inr u \<Rightarrow>
            (case r3 of
               Inl e \<Rightarrow>
                 (Inl e, s\<lparr>trace := trace s @ [SimUtils (Shutdown d), Emit (ShutdownDevice d),
                                                SimUtils (ResetContentAndSettings d),
                                                SimUtils (Boot d)],
                           world := w3\<rparr>)
             | Inr coldBoot \<Rightarrow>
                 (Inr (), s\<lparr>trace := trace s @ [SimUtils (Shutdown d), Emit (ShutdownDevice d),
                                                 SimUtils (ResetContentAndSettings d),
                                                 SimUtils (Boot d), Emit (BootDevice coldBoot d)],
                            world := w3\<rparr>))))"
proof (cases r1)
  case (Inl e)
  with sh show ?thesis
    by (simp add: resetContentAndSettings_def await_def shutdown_run)
next
  case sh_ok: (Inr u)
  let ?s1 = "s\<lparr>trace := trace s @ [SimUtils (Shutdown d), Emit (ShutdownDevice d)], world := w1\<rparr>"
  have after_shutdown: "shutdown c d s = (Inr (), ?s1)"
    using sh sh_ok by (simp add: shutdown_run)
  show ?thesis
  proof (cases r2)
    case (Inl e)
    with after_shutdown wipe sh_ok show ?thesis
      by (simp add: resetContentAndSettings_def await_def applesimutils_def)
  next
    case wipe_ok: (Inr u')
    let ?s2 = "?s1\<lparr>trace := trace ?s1 @ [SimUtils (ResetContentAndSettings d)], world := w2\<rparr>"
    have "boot c d ?s2 =
      (case r3 of
         Inl e \<Rightarrow> (Inl e, ?s2\<lparr>trace := trace ?s2 @ [SimUtils (Boot d)], world := w3\<rparr>)
       | Inr coldBoot \<Rightarrow>
           (Inr (), ?s2\<lparr>trace := trace ?s2 @ [SimUtils (Boot d), Emit (BootDevice coldBoot d)],
                      world := w3\<rparr>))"
      using bt by (intro boot_run) simp
    with after_shutdown wipe sh_ok wipe_ok show ?thesis
      by (cases r3) (simp_all add: resetContentAndSettings_def await_def applesimutils_def)
  qed
qed

text \<open>
  C8. Every call \<open>resetContentAndSettings deviceId\<close> calls the backend in the order
  shutdown, wipe (\<open>resetContentAndSettings\<close> of the backend), boot, and nothing else.
  The call succeeds only when all three steps succeed, and then its last step is the
  successful boot of the device. When a step throws, its error is the outcome of the call
  and the steps after it are not performed.
\<close>

theorem resetContentAndSettings_steps:
  assumes sh: "asu_shutdown c d (world s) = (r1, w1)"
    and wipe: "asu_resetContentAndSettings c d w1 = (r2, w2)"
    and bt: "asu_boot c d w2 = (r3, w3)"
  shows "fst (resetContentAndSettings c d s) =
           (case r1 of
              Inl e \<Rightarrow> Inl e
            | Inr u \<Rightarrow>
               (case r2 of
                  Inl e \<Rightarrow> Inl e
                | Inr u \<Rightarrow> (case r3 of Inl e \<Rightarrow> Inl e | Inr coldBoot \<Rightarrow> Inr ())))
       \<and> simutils_calls (trace (snd (resetContentAndSettings c d s))) =
           simutils_calls (trace s) @
           (case r1 of
              Inl e \<Rightarrow> [Shutdown d]
            | Inr u \<Rightarrow>
               (case r2 of
                  Inl e \<Rightarrow> [Shutdown d, ResetContentAndSettings d]
                | Inr u \<Rightarrow> [Shutdown d, ResetContentAndSettings d, Boot d]))"
  unfolding resetContentAndSettings_run [OF sh wipe bt]
  by (simp add: simutils_calls_append split: sum.split)

theorem resetContentAndSettings_steps_witness:
  "fst (resetContentAndSettings (scripted all_ok) ''ABCD-1'' fresh) = Inr ()
   \<and> simutils_calls (trace (snd (resetContentAndSettings (scripted all_ok) ''ABCD-1'' fresh))) =
       [Shutdown ''ABCD-1'', ResetContentAndSettings ''ABCD-1'', Boot ''ABCD-1'']
   \<and> fst (resetContentAndSettings (scripted (all_ok\<lparr>on_reset := Inl (Thrown ''wipe failed'')\<rparr>))
            ''ABCD-1'' fresh) = Inl (Thrown ''wipe failed'')
   \<and> simutils_calls (trace (snd (resetContentAndSettings
         (scripted (all_ok\<lparr>on_reset := Inl (Thrown ''wipe failed'')\<rparr>)) ''ABCD-1'' fresh))) =
       [Shutdown ''ABCD-1'', ResetContentAndSettings ''ABCD-1'']"
proof -
  let ?bad = "scripted (all_ok\<lparr>on_reset := Inl (Thrown ''wipe failed'')\<rparr>)"
  have sh: "asu_shutdown (scripted all_ok) ''ABCD-1'' (world fresh) = (Inr (), 1)"
    and wipe: "asu_resetContentAndSettings (scripted all_ok) ''ABCD-1'' 1 = (Inr (), 2)"
    and bt: "asu_boot (scripted all_ok) ''ABCD-1'' 2 = (Inr True, 3)"
    by (simp_all add: scripts)
  have sh': "asu_shutdown ?bad ''ABCD-1'' (world fresh) = (Inr (), 1)"
    and wipe': "asu_resetContentAndSettings ?bad ''ABCD-1'' 1 = (Inl (Thrown ''wipe failed''), 2)"
    and bt': "asu_boot ?bad ''ABCD-1'' 2 = (Inr True, 3)"
    by (simp_all add: scripts)
  show ?thesis
    using resetContentAndSettings_steps [OF sh wipe bt]
      resetContentAndSettings_steps [OF sh' wipe' bt']
    by (simp add: fresh_def)
qed



subsection \<open>The normalisation of device descriptors\<close>

lemma update_fresh_key:
  "k \<notin> fst ` set al \<Longrightarrow> AList.update k v al = al @ [(k, v)]"
  by (induction al) auto

text \<open>
  Assigning pairwise distinct new keys, none of which the result has yet, appends the
  properties one after the other.
\<close>

lemma fold_assign_fresh_keys:
  "distinct (map fst acc @ map (\<lambda>(k, v). f v k) xs) \<Longrightarrow>
   fold (\<lambda>(key, val) result. AList.update (f val key) val result) xs acc =
     acc @ map (\<lambda>(k, v). (f v k, v)) xs"
proof (induction xs arbitrary: acc)
  case Nil
  then show ?case by simp
next
  case (Cons p xs)
  obtain k v where p: "p = (k, v)" by (cases p)
  from Cons.prems have fresh_key: "f v k \<notin> fst ` set acc"
    by (auto simp: p)
  have "distinct (map fst (acc @ [(f v k, v)]) @ map (\<lambda>(k, v). f v k) xs)"
    using Cons.prems by (auto simp: p)
  from Cons.IH [OF this] show ?case
    by (simp add: p update_fresh_key [OF fresh_key])
qed

lemma renamed_keys_distinct:
  assumes "distinct (map fst device)"
    and "''id'' \<notin> fst ` set device \<or> ''udid'' \<notin> fst ` set device"
  shows "distinct (map (\<lambda>(k, v). renameUDID v k) device)"
proof -
  have eq: "map (\<lambda>(k, v). renameUDID v k) device =
      map (\<lambda>k. if k = ''udid'' then ''id'' else k) (map fst device)"
    by (simp add: renameUDID_def case_prod_unfold)
  have "inj_on (\<lambda>k. if k = ''udid'' then ''id'' else k) (set (map fst device))"
    using assms(2) by (force simp: inj_on_def split: if_splits)
  with assms(1) have "distinct (map fst device) \<and>
      inj_on (\<lambda>k. if k = ''udid'' then ''id'' else k) (set (map fst device))"
    by (rule conjI)
  then have "distinct (map (\<lambda>k. if k = ''udid'' then ''id'' else k) (map fst device))"
    by (rule iffD2 [OF distinct_map])
  then show ?thesis
    by (simp only: eq)
qed

text \<open>
  C9, as the code has it. For every device descriptor that does not have both a property
  \<open>id\<close> and a property \<open>udid\<close> of its own, \<open>remapSimUtilsObject\<close> renames the key
  \<open>udid\<close> to \<open>id\<close> and leaves every other key and every value as they are. The
  first hypothesis says that the list is an object: its keys are pairwise distinct.
\<close>

theorem remapSimUtilsObject_renames_udid:
  assumes "distinct (map fst device)"
    and "''id'' \<notin> fst ` set device \<or> ''udid'' \<notin> fst ` set device"
  shows "remapSimUtilsObject device =
           map (\<lambda>(key, val). (if key = ''udid'' then ''id'' else key, val)) device"
proof -
  have "distinct (map fst [] @ map (\<lambda>(k, v). renameUDID v k) device)"
    using renamed_keys_distinct [OF assms] by simp
  from fold_assign_fresh_keys [OF this]
  show ?thesis
    by (simp add: remapSimUtilsObject_def mapKeys_def renameUDID_def)
qed

text \<open>
  The instances: a descriptor with \<open>udid\<close> and no \<open>id\<close>, whose key is renamed, and a
  descriptor with \<open>id\<close> and no \<open>udid\<close>, which is returned as it is.
\<close>

theorem remapSimUtilsObject_renames_udid_witness:
  "remapSimUtilsObject
     [(''udid'', JString ''ABCD-1''), (''name'', JString ''iPhone-Test''),
      (''os'', JObject [(''version'', JString ''17.0'')])] =
     [(''id'', JString ''ABCD-1''), (''name'', JString ''iPhone-Test''),
      (''os'', JObject [(''version'', JString ''17.0'')])]
   \<and> remapSimUtilsObject [(''id'', JString ''ABCD-1''), (''name'', JString ''iPhone-Test'')] =
     [(''id'', JString ''ABCD-1''), (''name'', JString ''iPhone-Test'')]"
proof -
  let ?device = "[(''udid'', JString ''ABCD-1''), (''name'', JString ''iPhone-Test''),
                  (''os'', JObject [(''version'', JString ''17.0'')])]"
  let ?named = "[(''id'', JString ''ABCD-1''), (''name'', JString ''iPhone-Test'')]"
  have keys: "distinct (map fst ?device)"
    and not_both: "''id'' \<notin> fst ` set ?device \<or> ''udid'' \<notin> fst ` set ?device"
    by simp_all
  have keys': "distinct (map fst ?named)"
    and not_both': "''id'' \<notin> fst ` set ?named \<or> ''udid'' \<notin> fst ` set ?named"
    by simp_all
  show ?thesis
    using remapSimUtilsObject_renames_udid [OF keys not_both]
      remapSimUtilsObject_renames_udid [OF keys' not_both']
    by simp
qed

text \<open>
  C9, as the claim states it, fails for a descriptor that has both keys: the two
  properties fall onto the one key \<open>id\<close>, and the value the descriptor had under \<open>id\<close>
  is overwritten by the value of \<open>udid\<close>.
\<close>

theorem remapSimUtilsObject_both_keys_counterexample:
  "remapSimUtilsObject [(''id'', JString ''A''), (''udid'', JString ''B'')] =
     [(''id'', JString ''B'')]"
  by (simp add: remapSimUtilsObject_def mapKeys_def renameUDID_def)

subsection \<open>The capability createDeviceWithProperties\<close>

text \<open>
  The method bound as the registry's \<open>createDeviceWithProperties\<close> is, call for call,
  the enumeration \<open>getDevicesWithProperties\<close>.
\<close>

lemma createDeviceWithProperties_is_enumeration:
  "createDeviceWithProperties c props = getDevicesWithProperties c props"
  by (simp add: createDeviceWithProperties_def getDevicesWithProperties_def)

text \<open>
  C5 does not hold of the code. Asked for a device that no existing device matches, the
  capability enumerates the devices of the backend, which is its only call, and returns
  the list it got, here the empty list; no device is created. With two matching devices
  it returns the list of both descriptors.
\<close>

theorem createDeviceWithProperties_enumerates:
  "createDeviceWithProperties (scripted all_ok)
     [(''name'', JString ''iPhone-Test''), (''os'', JString ''17.0'')] fresh =
     (Inr [],
      \<lparr>trace = [SimUtils (GetDevicesWithProperties
                   [(''name'', JString ''iPhone-Test''), (''os'', JString ''17.0'')])],
       owned = {}, world = 1\<rparr>)
   \<and> fst (createDeviceWithProperties
         (scripted (all_ok\<lparr>on_getDevices :=
            Inr [[(''udid'', JString ''A'')], [(''udid'', JString ''B'')]]\<rparr>))
         [(''name'', JString ''iPhone-Test'')] fresh) =
     Inr [[(''id'', JString ''A'')], [(''id'', JString ''B'')]]"
  by (simp add: createDeviceWithProperties_def remapSimUtilsObject_def mapKeys_def
      renameUDID_def plumbing scripts)

end
